theory Spec2Isabelle
  imports Main "HOL-Library.Multiset" "HOL-Library.Char_ord" "HOL-Library.List_Lexorder"
begin

section \<open>Build metadata of the server: an embedding of \<open>edb/server/buildmeta.py\<close>\<close>

text \<open>
  Python values are modelled as follows. A \<open>bytes\<close> object and a \<open>str\<close> are both
  lists of characters, a character of a \<open>str\<close> being a code point below 256; an \<open>int\<close>
  is a HOL \<open>int\<close>. Every exception the module can let escape is a value of \<open>exn\<close>, and
  a function that may raise returns \<open>exn + 'a\<close> with \<open>Inl\<close> carrying the exception.
\<close>

type_synonym bytes = string

datatype exn =
    MetadataError string
  | OSError string
  | UnboundLocalError string
  | TypeError
  | IndexError
  | RecursionError
  | OtherError string

subsection \<open>Rendering integers and joining strings\<close>

text \<open>\<open>str(n)\<close> for a Python integer: decimal digits, with a minus sign when negative.\<close>

fun str_nat :: "nat \<Rightarrow> string" where
  "str_nat n =
     (if n < 10 then [char_of (48 + n)]
      else str_nat (n div 10) @ [char_of (48 + n mod 10)])"

declare str_nat.simps [simp del]

definition str_int :: "int \<Rightarrow> string" where
  "str_int i = (if i < 0 then CHR ''-'' # str_nat (nat (- i)) else str_nat (nat i))"

text \<open>\<open>sep.join(xs)\<close>.\<close>

fun join :: "string \<Rightarrow> string list \<Rightarrow> string" where
  "join sep [] = []"
| "join sep [x] = x"
| "join sep (x # y # ys) = x @ sep @ join sep (y # ys)"

subsection \<open>The version model\<close>

text \<open>\<open>class VersionStage(enum.IntEnum)\<close> with its numeric values and member names.\<close>

datatype VersionStage = DEV | ALPHA | BETA | RC | FINAL

fun stage_value :: "VersionStage \<Rightarrow> int" where
  "stage_value DEV = 0"
| "stage_value ALPHA = 10"
| "stage_value BETA = 20"
| "stage_value RC = 30"
| "stage_value FINAL = 40"

text \<open>\<open>stage.name.lower()\<close>.\<close>

fun stage_name_lower :: "VersionStage \<Rightarrow> string" where
  "stage_name_lower DEV = ''dev''"
| "stage_name_lower ALPHA = ''alpha''"
| "stage_name_lower BETA = ''beta''"
| "stage_name_lower RC = ''rc''"
| "stage_name_lower FINAL = ''final''"

text \<open>\<open>class Version(NamedTuple)\<close>; \<open>local\<close> is a tuple of strings.\<close>

record Version =
  major :: int
  minor :: int
  stage :: VersionStage
  stage_no :: int
  local :: "string list"

text \<open>
  \<open>Version.__str__\<close>. The second \<open>if\<close> of the source tests \<open>self.local\<close> twice (once
  in the statement, once inside the f-string); both tests are kept.
\<close>

definition Version_str :: "Version \<Rightarrow> string" where
  "Version_str v =
     (let ver = str_int (major v) @ ''.'' @ str_int (minor v);
          ver = (if stage v \<noteq> FINAL
                 then ver @ ''-'' @ stage_name_lower (stage v) @ ''.'' @ str_int (stage_no v)
                 else ver);
          ver = (if local v \<noteq> []
                 then ver @ (if local v \<noteq> [] then ''+'' @ join ''.'' (local v) else '''')
                 else ver)
      in ver)"

text \<open>
  The foreign version object read by \<open>parse_version\<close>: \<open>ver._version\<close> exposes
  \<open>release\<close> (a tuple of integers), \<open>pre\<close> and \<open>dev\<close> (each \<open>None\<close> or a pair of a
  letter code and a number) and \<open>local\<close> (\<open>None\<close> or a tuple of segments);
  \<open>ver_text\<close> is \<open>str(ver)\<close>, used in the error message only. The segments are
  strings, as the annotation \<open>Tuple[str, ...]\<close> of \<open>Version.local\<close> declares; a foreign
  version with a numeric local segment is not covered.
\<close>

record foreign_version =
  release :: "int list"
  pre :: "(string \<times> int) option"
  dev :: "(string \<times> int) option"
  flocal :: "string list option"
  ver_text :: string

text \<open>\<open>xs[i]\<close> on a tuple, raising \<open>IndexError\<close> out of range (only indices 0 and 1 occur).\<close>

definition tuple_get :: "'a list \<Rightarrow> nat \<Rightarrow> exn + 'a" where
  "tuple_get xs i = (if i < length xs then Inr (xs ! i) else Inl IndexError)"

text \<open>
  \<open>parse_version\<close>. The stage is decided first; \<open>release[0]\<close> and \<open>release[1]\<close> are read
  only when the \<open>Version\<close> is built, so an unknown pre-release letter raises before any
  \<open>IndexError\<close>. A \<open>local\<close> of \<open>None\<close> or of the empty tuple is falsy.
\<close>

definition parse_stage ::
  "foreign_version \<Rightarrow> exn + (VersionStage \<times> int \<times> string list)" where
  "parse_stage v =
     (case pre v of
        Some (letter, n) \<Rightarrow>
          (let dev_local = (case dev v of Some (_, d) \<Rightarrow> [''dev'', str_int d] | None \<Rightarrow> [])
           in if letter = ''a'' then Inr (ALPHA, n, dev_local)
              else if letter = ''b'' then Inr (BETA, n, dev_local)
              else if letter = ''c'' then Inr (RC, n, dev_local)
              else Inl (MetadataError (''cannot determine release stage from '' @ ver_text v)))
      | None \<Rightarrow>
          (case dev v of
             Some (_, d) \<Rightarrow> Inr (DEV, d, [])
           | None \<Rightarrow> Inr (FINAL, 0, [])))"

definition parse_version :: "foreign_version \<Rightarrow> exn + Version" where
  "parse_version v =
     (case parse_stage v of
        Inl e \<Rightarrow> Inl e
      | Inr (st, st_no, loc) \<Rightarrow>
          (let loc = (case flocal v of
                        Some segs \<Rightarrow> (if segs \<noteq> [] then loc @ segs else loc)
                      | None \<Rightarrow> loc)
           in case tuple_get (release v) 0 of
                Inl e \<Rightarrow> Inl e
              | Inr mj \<Rightarrow>
                  (case tuple_get (release v) 1 of
                     Inl e \<Rightarrow> Inl e
                   | Inr mn \<Rightarrow>
                       Inr \<lparr>major = mj, minor = mn, stage = st, stage_no = st_no,
                            local = loc\<rparr>)))"

subsection \<open>Paths and the file system\<close>

text \<open>
  A path is its string form, for \<open>pathlib\<close> paths as for the \<open>str\<close> paths of
  \<open>os.scandir\<close>. A \<open>pathlib\<close> path is kept normalised, as \<open>PurePosixPath\<close> does: the
  root is \<open>/\<close>, or \<open>//\<close> for exactly two leading slashes, or empty; the parts are the
  pieces between slashes that are neither empty nor \<open>.\<close>; the path without root and
  parts is \<open>.\<close>.
\<close>

fun split_slash :: "string \<Rightarrow> string list" where
  "split_slash [] = [[]]"
| "split_slash (c # cs) =
     (if c = CHR ''/'' then [] # split_slash cs
      else (case split_slash cs of [] \<Rightarrow> [[c]] | w # ws \<Rightarrow> (c # w) # ws))"

definition path_root :: "string \<Rightarrow> string" where
  "path_root s =
     (if take 2 s = ''//'' \<and> take 3 s \<noteq> ''///'' then ''//''
      else if take 1 s = ''/'' then ''/''
      else [])"

definition path_parts :: "string \<Rightarrow> string list" where
  "path_parts s = filter (\<lambda>part. part \<noteq> [] \<and> part \<noteq> ''.'') (split_slash s)"

definition mk_path :: "string \<Rightarrow> string list \<Rightarrow> string" where
  "mk_path root parts = (if root = [] \<and> parts = [] then ''.'' else root @ join ''/'' parts)"

text \<open>\<open>str(pathlib.Path(s))\<close>.\<close>

definition normpath :: "string \<Rightarrow> string" where
  "normpath s = mk_path (path_root s) (path_parts s)"

text \<open>
  The \<open>/\<close> operator of \<open>pathlib\<close> (a right operand with a root replaces the left one)
  and \<open>.parent\<close> (the path without its last part; a path without parts is its own
  parent).
\<close>

definition joinpath :: "string \<Rightarrow> string \<Rightarrow> string" where
  "joinpath p q =
     (if path_root q \<noteq> [] then normpath q
      else mk_path (path_root p) (path_parts p @ path_parts q))"

definition parent_path :: "string \<Rightarrow> string" where
  "parent_path p = mk_path (path_root p) (butlast (path_parts p))"

text \<open>
  The file system maps a path to what is there: a regular file with its contents, or a
  directory. A path absent from the map does not exist.
\<close>

datatype node = File bytes | Dir

type_synonym filesys = "string \<rightharpoonup> node"

definition exists_path :: "filesys \<Rightarrow> string \<Rightarrow> bool" where
  "exists_path fs p = (fs p \<noteq> None)"


text \<open>\<open>open(p, 'rb').read()\<close>: the contents of a regular file, \<open>OSError\<close> otherwise.\<close>

definition read_file :: "filesys \<Rightarrow> string \<Rightarrow> exn + bytes" where
  "read_file fs p =
     (case fs p of
        Some (File b) \<Rightarrow> Inr b
      | Some Dir \<Rightarrow> Inl (OSError ''IsADirectoryError'')
      | None \<Rightarrow> Inl (OSError ''FileNotFoundError''))"

subsection \<open>The metadata accessor\<close>

text \<open>
  The process environment (\<open>os.environ\<close>), the embedded module \<open>_buildmeta\<close>
  (\<open>None\<close> when importing it raises \<open>ImportError\<close>, otherwise its attributes), the
  collaborators \<open>devmode.is_in_dev_mode()\<close> and \<open>devmode.get_dev_mode_cache_dir()\<close>, the
  package location \<open>edb.server.__path__[0]\<close> and \<open>Path.resolve\<close>.
\<close>

datatype pyval = Str string | Int int | Tuple "pyval list"

record config =
  environ :: "string \<rightharpoonup> string"
  buildmeta :: "(string \<rightharpoonup> pyval) option"
  in_dev_mode :: bool
  dev_mode_cache_dir :: string
  edb_server_path :: string
  resolve :: "string \<Rightarrow> string"

definition get_build_metadata_value :: "config \<Rightarrow> string \<Rightarrow> exn + pyval" where
  "get_build_metadata_value cfg prop =
     (let env_val = environ cfg (''_EDGEDB_BUILDMETA_'' @ prop);
          not_found = Inl (MetadataError (''could not find '' @ prop @ '' in build metadata''));
          embedded = (case buildmeta cfg of
                        None \<Rightarrow> not_found
                      | Some m \<Rightarrow> (case m prop of None \<Rightarrow> not_found | Some x \<Rightarrow> Inr x))
      in case env_val of
           Some s \<Rightarrow> (if s \<noteq> [] then Inr (Str s) else embedded)
         | None \<Rightarrow> embedded)"

text \<open>
  \<open>pathlib.Path(x)\<close>: a string becomes the normalised path, anything else raises
  \<open>TypeError\<close>.
\<close>

definition Path :: "pyval \<Rightarrow> exn + string" where
  "Path x = (case x of Str s \<Rightarrow> Inr (normpath s) | _ \<Rightarrow> Inl TypeError)"

definition metadata_path :: "config \<Rightarrow> string \<Rightarrow> exn + string" where
  "metadata_path cfg prop =
     (case get_build_metadata_value cfg prop of Inl e \<Rightarrow> Inl e | Inr x \<Rightarrow> Path x)"







definition get_runstate_path :: "config \<Rightarrow> string \<Rightarrow> exn + string" where
  "get_runstate_path cfg data_dir =
     (if in_dev_mode cfg then Inr data_dir else metadata_path cfg ''RUNSTATE_DIR'')"

definition get_shared_data_dir_path :: "config \<Rightarrow> exn + string" where
  "get_shared_data_dir_path cfg =
     (if in_dev_mode cfg then Inr (dev_mode_cache_dir cfg)
      else metadata_path cfg ''SHARED_DATA_DIR'')"

subsection \<open>The directory hasher\<close>

text \<open>
  An entry yielded by \<open>os.scandir\<close>: its \<open>name\<close>, its \<open>path\<close> and the answers of
  \<open>is_file()\<close> and \<open>is_dir()\<close>. The directory listing itself is a parameter
  \<open>scandir\<close>: for a directory name, the exception raised or the entries in the order the
  file system yields them.
\<close>

record dirent =
  entry_name :: string
  entry_path :: string
  entry_is_file :: bool
  entry_is_dir :: bool

type_synonym scandir = "string \<Rightarrow> exn + dirent list"

text \<open>\<open>s.endswith(suffix)\<close>.\<close>

definition endswith :: "string \<Rightarrow> string \<Rightarrow> bool" where
  "endswith s suf = (length suf \<le> length s \<and> drop (length s - length suf) s = suf)"

text \<open>
  The inner function \<open>hash_dir(dirname, ext, paths)\<close> appends to \<open>paths\<close>; here it
  returns the extended list. It calls itself for every subdirectory, so its first argument
  is the number of nested calls the interpreter still allows: at zero the call raises
  \<open>RecursionError\<close>. \<open>hash_entries\<close> is the body of its \<open>for\<close> loop over the entries.
\<close>

fun hash_dir :: "nat \<Rightarrow> scandir \<Rightarrow> string \<Rightarrow> string \<Rightarrow> string list \<Rightarrow> exn + string list"
  and hash_entries ::
    "nat \<Rightarrow> scandir \<Rightarrow> string \<Rightarrow> dirent list \<Rightarrow> string list \<Rightarrow> exn + string list" where
  "hash_dir 0 sc dirname ext paths = Inl RecursionError"
| "hash_dir (Suc n) sc dirname ext paths =
     (case sc dirname of
        Inl e \<Rightarrow> Inl e
      | Inr entries \<Rightarrow> hash_entries n sc ext entries paths)"
| "hash_entries n sc ext [] paths = Inr paths"
| "hash_entries n sc ext (entry # rest) paths =
     (if entry_is_file entry \<and> endswith (entry_name entry) ext then
        hash_entries n sc ext rest (paths @ [entry_path entry])
      else if entry_is_dir entry then
        (case hash_dir n sc (entry_path entry) ext paths of
           Inl e \<Rightarrow> Inl e
         | Inr paths' \<Rightarrow> hash_entries n sc ext rest paths')
      else hash_entries n sc ext rest paths)"

text \<open>The loop \<open>for dirname, ext in dirs: hash_dir(dirname, ext, paths)\<close>.\<close>

fun collect_paths ::
  "nat \<Rightarrow> scandir \<Rightarrow> (string \<times> string) list \<Rightarrow> string list \<Rightarrow> exn + string list" where
  "collect_paths n sc [] paths = Inr paths"
| "collect_paths n sc ((dirname, ext) # dirs) paths =
     (case hash_dir n sc dirname ext paths of
        Inl e \<Rightarrow> Inl e
      | Inr paths' \<Rightarrow> collect_paths n sc dirs paths')"

text \<open>
  The loop \<open>for path in sorted(paths): h.update(f.read())\<close>. The state of the hash object
  is the bytes fed to it so far: \<open>hashlib\<close> documents that repeated updates equal one
  update with the concatenation.
\<close>

fun feed_files :: "filesys \<Rightarrow> string list \<Rightarrow> bytes \<Rightarrow> exn + bytes" where
  "feed_files fs [] h = Inr h"
| "feed_files fs (p # ps) h =
     (case read_file fs p of
        Inl e \<Rightarrow> Inl e
      | Inr b \<Rightarrow> feed_files fs ps (h @ b))"

text \<open>
  \<open>hash_dirs\<close>; \<open>sha1\<close> is the digest function of \<open>hashlib\<close>, a parameter. \<open>sorted\<close>
  orders strings lexicographically by character code.
\<close>

definition hash_input ::
  "nat \<Rightarrow> scandir \<Rightarrow> filesys \<Rightarrow> (string \<times> string) list \<Rightarrow> exn + bytes" where
  "hash_input limit sc fs dirs =
     (case collect_paths limit sc dirs [] of
        Inl e \<Rightarrow> Inl e
      | Inr paths \<Rightarrow> feed_files fs (sort paths) [])"

definition hash_dirs ::
  "(bytes \<Rightarrow> bytes) \<Rightarrow> nat \<Rightarrow> scandir \<Rightarrow> filesys \<Rightarrow> (string \<times> string) list \<Rightarrow> exn + bytes" where
  "hash_dirs sha1 limit sc fs dirs =
     (case hash_input limit sc fs dirs of
        Inl e \<Rightarrow> Inl e
      | Inr fed \<Rightarrow> Inr (sha1 fed))"

subsection \<open>The cache of derived data\<close>

text \<open>
  A Python object handed to or returned by the cache: \<open>None\<close>, a \<open>bytes\<close> object, or any
  other object (of a type left open). \<open>pickle.dumps\<close> and \<open>pickle.loads\<close> are parameters
  \<open>dumps\<close> and \<open>loads\<close>; each returns the exception it raises or its result.
\<close>

datatype 'a pyobj = PyNone | PyBytes bytes | PyObj 'a

text \<open>The \<open>source_dir\<close> or \<open>target_dir\<close> argument, \<open>None\<close> standing for the default.\<close>

definition cache_dir :: "config \<Rightarrow> string option \<Rightarrow> exn + string" where
  "cache_dir cfg dir = (case dir of None \<Rightarrow> get_shared_data_dir_path cfg | Some d \<Rightarrow> Inr d)"

text \<open>
  \<open>read_data_cache\<close> returns the lines passed to \<open>logging.exception\<close> and the outcome. A
  call that falls off the end of the function returns \<open>None\<close>. \<open>open_fault\<close> is the
  exception \<open>open\<close> raises on an existing regular file (a permission error), if any.
\<close>

definition read_data_cache ::
  "config \<Rightarrow> (bytes \<Rightarrow> exn + 'a pyobj) \<Rightarrow> exn option \<Rightarrow> filesys \<Rightarrow>
   bytes \<Rightarrow> string \<Rightarrow> bool \<Rightarrow> string option \<Rightarrow> string list \<times> (exn + 'a pyobj)" where
  "read_data_cache cfg loads open_fault fs cache_key path pickled source_dir =
     (case cache_dir cfg source_dir of
        Inl e \<Rightarrow> ([], Inl e)
      | Inr sd \<Rightarrow>
          (let full_path = joinpath sd path
           in if exists_path fs full_path then
                (case (case open_fault of Some e \<Rightarrow> Inl e | None \<Rightarrow> read_file fs full_path) of
                   Inl e \<Rightarrow> ([], Inl e)
                 | Inr content \<Rightarrow>
                     (let src_hash = take (length cache_key) content;
                          rest = drop (length cache_key) content
                      in if src_hash = cache_key then
                           (if pickled then
                              (case loads rest of
                                 Inr obj \<Rightarrow> ([], Inr obj)
                               | Inl e \<Rightarrow> ([''could not unpickle '' @ path], Inr PyNone))
                            else ([], Inr (PyBytes rest)))
                         else ([], Inr PyNone)))
              else ([], Inr PyNone)))"

text \<open>
  What the operating system does during one call of \<open>write_data_cache\<close>:
  \<open>tmp_file\<close> is the outcome of \<open>NamedTemporaryFile\<close> (the exception, or the base name
  it chose inside the directory); \<open>write_fault = Some (n, e)\<close> lets \<open>n\<close> bytes reach the
  file and then raises \<open>e\<close>; \<open>unlink_fault\<close> and \<open>rename_fault\<close> are the errors of
  \<open>os.unlink\<close> and \<open>os.rename\<close>, if any.
\<close>

record io_faults =
  tmp_file :: "exn + string"
  write_fault :: "(nat \<times> exn) option"
  unlink_fault :: "string option"
  rename_fault :: "exn option"

text \<open>
  \<open>NamedTemporaryFile(mode='wb', dir=d, delete=False)\<close>: a new empty file in \<open>d\<close>, never
  an existing one.
\<close>

definition named_temporary_file :: "io_faults \<Rightarrow> filesys \<Rightarrow> string \<Rightarrow> exn + (string \<times> filesys)" where
  "named_temporary_file io fs d =
     (case tmp_file io of
        Inl e \<Rightarrow> Inl e
      | Inr base \<Rightarrow>
          (let name = joinpath d base
           in if exists_path fs name then Inl (OSError ''FileExistsError'')
              else Inr (name, fs(name \<mapsto> File []))))"

text \<open>
  \<open>f.write(data)\<close> on a file holding \<open>cur\<close>: the new contents, or the exception together
  with what did reach the file.
\<close>

definition file_write :: "io_faults \<Rightarrow> bytes \<Rightarrow> bytes \<Rightarrow> (exn \<times> bytes) + bytes" where
  "file_write io cur data =
     (case write_fault io of
        None \<Rightarrow> Inr (cur @ data)
      | Some (n, e) \<Rightarrow>
          (if length (cur @ data) \<le> n then Inr (cur @ data)
           else Inl (e, take n (cur @ data))))"

definition os_unlink :: "io_faults \<Rightarrow> filesys \<Rightarrow> string \<Rightarrow> exn + filesys" where
  "os_unlink io fs p =
     (case unlink_fault io of
        Some msg \<Rightarrow> Inl (OSError msg)
      | None \<Rightarrow>
          (if exists_path fs p then Inr (fs(p := None))
           else Inl (OSError ''FileNotFoundError'')))"

definition os_rename :: "io_faults \<Rightarrow> filesys \<Rightarrow> string \<Rightarrow> string \<Rightarrow> exn + filesys" where
  "os_rename io fs src dst =
     (case rename_fault io of
        Some e \<Rightarrow> Inl e
      | None \<Rightarrow>
          (case fs dst of
             Some Dir \<Rightarrow> Inl (OSError ''IsADirectoryError'')
           | _ \<Rightarrow> Inr ((fs(src := None))(dst := fs src))))"

text \<open>
  The body of the \<open>with\<close> statement: the key, then the pickle of the object or the object
  itself, which must then be \<open>bytes\<close>. The result is the final contents of the temporary
  file, or the exception with the contents the file was left with.
\<close>

definition write_body ::
  "('a pyobj \<Rightarrow> exn + bytes) \<Rightarrow> io_faults \<Rightarrow> 'a pyobj \<Rightarrow> bytes \<Rightarrow> bool \<Rightarrow> (exn \<times> bytes) + bytes" where
  "write_body dumps io obj cache_key pickled =
     (case file_write io [] cache_key of
        Inl err \<Rightarrow> Inl err
      | Inr cur \<Rightarrow>
          (if pickled then
             (case dumps obj of
                Inl e \<Rightarrow> Inl (e, cur)
              | Inr b \<Rightarrow> file_write io cur b)
           else
             (case obj of
                PyBytes b \<Rightarrow> file_write io cur b
              | _ \<Rightarrow> Inl (TypeError, cur))))"

text \<open>
  \<open>write_data_cache\<close> returns the file system it leaves and the outcome. When
  \<open>NamedTemporaryFile\<close> itself raises, \<open>f\<close> is unbound in the handler, \<open>f.name\<close> raises
  \<open>UnboundLocalError\<close>, which is no \<open>OSError\<close>, and the bare \<open>raise\<close> of the \<open>finally\<close>
  clause re-raises that one. When the body raises, an \<open>OSError\<close> of \<open>os.unlink\<close> is
  passed over and the exception of the body is re-raised.
\<close>

definition write_data_cache ::
  "config \<Rightarrow> ('a pyobj \<Rightarrow> exn + bytes) \<Rightarrow> io_faults \<Rightarrow> filesys \<Rightarrow>
   'a pyobj \<Rightarrow> bytes \<Rightarrow> string \<Rightarrow> bool \<Rightarrow> string option \<Rightarrow> filesys \<times> (exn + unit)" where
  "write_data_cache cfg dumps io fs obj cache_key path pickled target_dir =
     (case cache_dir cfg target_dir of
        Inl e \<Rightarrow> (fs, Inl e)
      | Inr td \<Rightarrow>
          (let full_path = joinpath td path
           in case named_temporary_file io fs (parent_path full_path) of
                Inl e \<Rightarrow> (fs, Inl (UnboundLocalError ''f''))
              | Inr (f_name, fs1) \<Rightarrow>
                  (case write_body dumps io obj cache_key pickled of
                     Inl (e, written) \<Rightarrow>
                       (let fs2 = fs1(f_name \<mapsto> File written)
                        in case os_unlink io fs2 f_name of
                             Inl _ \<Rightarrow> (fs2, Inl e)
                           | Inr fs3 \<Rightarrow> (fs3, Inl e))
                   | Inr written \<Rightarrow>
                       (let fs2 = fs1(f_name \<mapsto> File written)
                        in case os_rename io fs2 f_name full_path of
                             Inl e \<Rightarrow> (fs2, Inl e)
                           | Inr fs3 \<Rightarrow> (fs3, Inr ())))))"

subsection \<open>What a walk matches, without the order\<close>

text \<open>
  For the statements about \<open>hash_dirs\<close>: whether the walk of one directory raises, and the
  multiset of paths it appends when it does not; the same for a single entry of a listing.
\<close>

definition walk_fails :: "nat \<Rightarrow> scandir \<Rightarrow> string \<Rightarrow> string \<Rightarrow> bool" where
  "walk_fails n sc dirname ext = isl (hash_dir n sc dirname ext [])"

definition matched :: "nat \<Rightarrow> scandir \<Rightarrow> string \<Rightarrow> string \<Rightarrow> string multiset" where
  "matched n sc dirname ext =
     (case hash_dir n sc dirname ext [] of Inr ps \<Rightarrow> mset ps | Inl _ \<Rightarrow> {#})"

definition entry_fails :: "nat \<Rightarrow> scandir \<Rightarrow> string \<Rightarrow> dirent \<Rightarrow> bool" where
  "entry_fails n sc ext entry =
     (\<not> (entry_is_file entry \<and> endswith (entry_name entry) ext) \<and> entry_is_dir entry
      \<and> walk_fails n sc (entry_path entry) ext)"

definition entry_matched :: "nat \<Rightarrow> scandir \<Rightarrow> string \<Rightarrow> dirent \<Rightarrow> string multiset" where
  "entry_matched n sc ext entry =
     (if entry_is_file entry \<and> endswith (entry_name entry) ext then {#entry_path entry#}
      else if entry_is_dir entry then matched n sc (entry_path entry) ext
      else {#})"

text \<open>The contents of a regular file, empty for anything else.\<close>

definition file_bytes :: "filesys \<Rightarrow> string \<Rightarrow> bytes" where
  "file_bytes fs p = (case fs p of Some (File b) \<Rightarrow> b | _ \<Rightarrow> [])"

subsection \<open>Concrete inputs\<close>

text \<open>
  A packaged installation whose environment overrides \<open>PG_CONFIG_PATH\<close> and sets an empty
  override for \<open>EMPTY\<close>, a file system holding the overriding \<open>pg_config\<close>, and the foreign
  version \<open>1.0b2.dev5+gabc.d2020\<close>.
\<close>

definition example_config :: config where
  "example_config =
     \<lparr>environ = [''_EDGEDB_BUILDMETA_PG_CONFIG_PATH'' \<mapsto> ''/opt/pg/bin/pg_config'',
                 ''_EDGEDB_BUILDMETA_EMPTY'' \<mapsto> ''''],
      buildmeta = Some [''PG_CONFIG_PATH'' \<mapsto> Str ''/usr/bin/pg_config'',
                        ''EMPTY'' \<mapsto> Str ''embedded'',
                        ''SHARED_DATA_DIR'' \<mapsto> Str ''/usr/share/edgedb''],
      in_dev_mode = False,
      dev_mode_cache_dir = ''/home/dev/.cache'',
      edb_server_path = ''/src/edb/server'',
      resolve = (\<lambda>p. p)\<rparr>"


definition example_foreign :: foreign_version where
  "example_foreign =
     \<lparr>release = [1, 0], pre = Some (''b'', 2), dev = Some (''dev'', 5),
      flocal = Some [''gabc'', ''d2020''], ver_text = ''1.0b2.dev5+gabc.d2020''\<rparr>"

text \<open>
  A serialisation for the concrete inputs, standing for \<open>pickle\<close>: \<open>None\<close> is the two bytes
  \<open>N.\<close> (the protocol-0 pickle of \<open>None\<close>), a \<open>bytes\<close> object is \<open>B\<close> and its bytes, any other
  object is a non-empty text after \<open>S\<close>; an object with empty text cannot be serialised.
\<close>

fun example_dumps :: "string pyobj \<Rightarrow> exn + bytes" where
  "example_dumps PyNone = Inr ''N.''"
| "example_dumps (PyBytes b) = Inr (CHR ''B'' # b)"
| "example_dumps (PyObj s) =
     (if s = [] then Inl (OtherError ''PicklingError'') else Inr (CHR ''S'' # s))"

fun example_loads :: "bytes \<Rightarrow> exn + string pyobj" where
  "example_loads [] = Inl (OtherError ''EOFError'')"
| "example_loads (c # cs) =
     (if c = CHR ''N'' \<and> cs = ''.'' then Inr PyNone
      else if c = CHR ''B'' then Inr (PyBytes cs)
      else if c = CHR ''S'' \<and> cs \<noteq> [] then Inr (PyObj cs)
      else Inl (OtherError ''UnpicklingError''))"

text \<open>
  A call during which nothing fails, and one during which the disk is full after two bytes
  and the file system then refuses the deletion; a cache directory with one older entry,
  and one whose entry holds the key \<open>KEY\<close> and the pickle of \<open>None\<close>.
\<close>

definition example_io :: io_faults where
  "example_io = \<lparr>tmp_file = Inr ''tmpk3x9'', write_fault = None, unlink_fault = None,
                  rename_fault = None\<rparr>"

definition failing_io :: io_faults where
  "failing_io = \<lparr>tmp_file = Inr ''tmpk3x9'', write_fault = Some (2, OSError ''ENOSPC''),
                  unlink_fault = Some ''EROFS'', rename_fault = None\<rparr>"

definition cache_files :: filesys where
  "cache_files = [''/cache'' \<mapsto> Dir, ''/cache/std.pickle'' \<mapsto> File ''old'']"


text \<open>
  The foreign version \<open>1a1\<close>, whose release is the single number 1, and a packaged
  installation whose \<open>PG_CONFIG_PATH\<close> override is not normalised.
\<close>

definition short_release_foreign :: foreign_version where
  "short_release_foreign =
     \<lparr>release = [1], pre = Some (''a'', 1), dev = None, flocal = None, ver_text = ''1a1''\<rparr>"


text \<open>Versions of every stage, with and without local segments.\<close>

definition alpha_version :: Version where
  "alpha_version =
     \<lparr>major = 1, minor = 2, stage = ALPHA, stage_no = 3, local = [''dev'', ''5'', ''gabc'']\<rparr>"

definition final_local_version :: Version where
  "final_local_version =
     \<lparr>major = 1, minor = 0, stage = FINAL, stage_no = 0, local = [''local'']\<rparr>"

definition dev_version :: Version where
  "dev_version = \<lparr>major = 2020, minor = 105, stage = DEV, stage_no = 4821, local = []\<rparr>"

definition beta_version :: Version where
  "beta_version = \<lparr>major = 0, minor = 9, stage = BETA, stage_no = 0, local = [''x'', ''y'']\<rparr>"

definition rc_version :: Version where
  "rc_version = \<lparr>major = 12, minor = 0, stage = RC, stage_no = 10, local = []\<rparr>"

text \<open>A call during which the write completes and \<open>os.rename\<close> is refused.\<close>

definition rename_failing_io :: io_faults where
  "rename_failing_io = \<lparr>tmp_file = Inr ''tmpk3x9'', write_fault = None, unlink_fault = None,
                         rename_fault = Some (OSError ''EACCES'')\<rparr>"

text \<open>
  A source tree for the directory hasher: \<open>src\<close> holds \<open>b.py\<close>, the directory \<open>pkg\<close> (with
  \<open>c.py\<close>), \<open>notes.txt\<close> and \<open>a.py\<close>, listed in that order; \<open>lib\<close> holds \<open>x.edgeql\<close>.
  \<open>reversed_scandir\<close> yields every listing in the opposite order. \<open>grown_scandir\<close> and
  \<open>grown_files\<close> are the same tree after the empty file \<open>src/empty.py\<close> has been added.
  \<open>toy_digest\<close> stands for SHA-1 where a concrete digest function is needed.
\<close>

definition file_entry :: "string \<Rightarrow> string \<Rightarrow> dirent" where
  "file_entry d n =
     \<lparr>entry_name = n, entry_path = d @ ''/'' @ n, entry_is_file = True, entry_is_dir = False\<rparr>"

definition dir_entry :: "string \<Rightarrow> string \<Rightarrow> dirent" where
  "dir_entry d n =
     \<lparr>entry_name = n, entry_path = d @ ''/'' @ n, entry_is_file = False, entry_is_dir = True\<rparr>"

definition src_scandir :: scandir where
  "src_scandir d =
     (if d = ''src'' then
        Inr [file_entry ''src'' ''b.py'', dir_entry ''src'' ''pkg'',
             file_entry ''src'' ''notes.txt'', file_entry ''src'' ''a.py'']
      else if d = ''src/pkg'' then Inr [file_entry ''src/pkg'' ''c.py'']
      else if d = ''lib'' then Inr [file_entry ''lib'' ''x.edgeql'']
      else Inl (OSError ''FileNotFoundError''))"

definition reversed_scandir :: scandir where
  "reversed_scandir d = (case src_scandir d of Inl e \<Rightarrow> Inl e | Inr es \<Rightarrow> Inr (rev es))"

definition grown_scandir :: scandir where
  "grown_scandir d =
     (if d = ''src'' then
        Inr [file_entry ''src'' ''b.py'', dir_entry ''src'' ''pkg'',
             file_entry ''src'' ''notes.txt'', file_entry ''src'' ''a.py'',
             file_entry ''src'' ''empty.py'']
      else src_scandir d)"

definition src_files :: filesys where
  "src_files =
     [''src'' \<mapsto> Dir, ''src/pkg'' \<mapsto> Dir, ''lib'' \<mapsto> Dir,
      ''src/a.py'' \<mapsto> File ''A'', ''src/b.py'' \<mapsto> File ''B'',
      ''src/pkg/c.py'' \<mapsto> File ''C'', ''src/notes.txt'' \<mapsto> File ''n'',
      ''lib/x.edgeql'' \<mapsto> File ''X'']"

definition grown_files :: filesys where
  "grown_files = src_files(''src/empty.py'' \<mapsto> File [])"

definition src_dirs :: "(string \<times> string) list" where
  "src_dirs = [(''src'', ''.py''), (''lib'', ''.edgeql'')]"

definition toy_digest :: "bytes \<Rightarrow> bytes" where
  "toy_digest b = [char_of (sum_list (map of_char b) :: nat), char_of (length b)]"

section \<open>Properties\<close>

subsection \<open>Metadata accessor and path resolvers\<close>

lemma str_int_digits:
  "str_int 0 = ''0''" "str_int 1 = ''1''" "str_int 2 = ''2''" "str_int 5 = ''5''"
  by code_simp+

text \<open>
  Claim C6. \<open>get_build_metadata_value(prop)\<close> returns the environment override verbatim
  whenever that variable is present and non-empty, whatever the embedded record defines;
  when the variable is absent or empty it returns the embedded record's attribute if
  there is one; it raises exactly when neither source yields a value, and what it raises
  is a \<open>MetadataError\<close>.
\<close>

theorem get_build_metadata_value_lookup:
  "(\<forall>s. environ cfg (''_EDGEDB_BUILDMETA_'' @ prop) = Some s \<and> s \<noteq> [] \<longrightarrow>
        get_build_metadata_value cfg prop = Inr (Str s))
   \<and> (environ cfg (''_EDGEDB_BUILDMETA_'' @ prop) \<in> {None, Some []} \<longrightarrow>
        (\<forall>m x. buildmeta cfg = Some m \<and> m prop = Some x \<longrightarrow>
            get_build_metadata_value cfg prop = Inr x)
        \<and> ((buildmeta cfg = None \<or> (\<exists>m. buildmeta cfg = Some m \<and> m prop = None)) \<longrightarrow>
            get_build_metadata_value cfg prop =
              Inl (MetadataError (''could not find '' @ prop @ '' in build metadata''))))
   \<and> ((\<exists>e. get_build_metadata_value cfg prop = Inl e) =
        (environ cfg (''_EDGEDB_BUILDMETA_'' @ prop) \<in> {None, Some []}
         \<and> (buildmeta cfg = None \<or> (\<exists>m. buildmeta cfg = Some m \<and> m prop = None))))
   \<and> (\<forall>e. get_build_metadata_value cfg prop = Inl e \<longrightarrow> (\<exists>msg. e = MetadataError msg))"
  by (auto simp: get_build_metadata_value_def Let_def split: option.splits)

theorem get_build_metadata_value_lookup_witness:
  "environ example_config (''_EDGEDB_BUILDMETA_'' @ ''PG_CONFIG_PATH'') = Some ''/opt/pg/bin/pg_config''
   \<and> get_build_metadata_value example_config ''PG_CONFIG_PATH'' = Inr (Str ''/opt/pg/bin/pg_config'')
   \<and> environ example_config (''_EDGEDB_BUILDMETA_'' @ ''EMPTY'') = Some []
   \<and> get_build_metadata_value example_config ''EMPTY'' = Inr (Str ''embedded'')
   \<and> environ example_config (''_EDGEDB_BUILDMETA_'' @ ''RUNSTATE_DIR'') = None
   \<and> get_build_metadata_value example_config ''RUNSTATE_DIR'' =
       Inl (MetadataError ''could not find RUNSTATE_DIR in build metadata'')"
  using get_build_metadata_value_lookup [of example_config "''PG_CONFIG_PATH''"]
    get_build_metadata_value_lookup [of example_config "''EMPTY''"]
    get_build_metadata_value_lookup [of example_config "''RUNSTATE_DIR''"]
  by (simp add: example_config_def)










subsection \<open>The version model\<close>

lemma join_dots:
  "xs \<noteq> [] \<Longrightarrow> join ''.'' xs = hd xs @ concat (map (\<lambda>seg. CHR ''.'' # seg) (tl xs))"
  by (induction "''.''" xs rule: join.induct) simp_all

lemma Version_str_instances:
  "Version_str \<lparr>major = 1, minor = 2, stage = FINAL, stage_no = 0, local = []\<rparr> = ''1.2''"
  "Version_str alpha_version = ''1.2-alpha.3+dev.5.gabc''"
  "Version_str final_local_version = ''1.0+local''"
  "Version_str dev_version = ''2020.105-dev.4821''"
  "Version_str beta_version = ''0.9-beta.0+x.y''"
  "Version_str rc_version = ''12.0-rc.10''"
  "Version_str \<lparr>major = - 1, minor = 7, stage = FINAL, stage_no = 3, local = []\<rparr> = ''-1.7''"
  by code_simp+

text \<open>
  Claim C8. \<open>str\<close> of a \<open>Version\<close> is \<open>major.minor\<close>, followed by \<open>-stage.stage_no\<close>
  with the lower-case stage name when the stage is not \<open>FINAL\<close>, followed by \<open>+\<close> and the
  local segments separated by dots when there are any, whatever the stage. It is
  \<open>major.minor\<close> alone exactly when the stage is \<open>FINAL\<close> and there is no local segment, and
  \<open>str(Version(1, 2, FINAL, 0, ()))\<close> is \<open>1.2\<close>.
\<close>

theorem Version_str_rendering:
  "Version_str v =
     str_int (major v) @ ''.'' @ str_int (minor v)
       @ (case stage v of
            DEV \<Rightarrow> ''-dev.'' @ str_int (stage_no v)
          | ALPHA \<Rightarrow> ''-alpha.'' @ str_int (stage_no v)
          | BETA \<Rightarrow> ''-beta.'' @ str_int (stage_no v)
          | RC \<Rightarrow> ''-rc.'' @ str_int (stage_no v)
          | FINAL \<Rightarrow> [])
       @ (if local v = [] then []
          else ''+'' @ hd (local v) @ concat (map (\<lambda>seg. CHR ''.'' # seg) (tl (local v))))
   \<and> ((Version_str v = str_int (major v) @ ''.'' @ str_int (minor v))
        = (stage v = FINAL \<and> local v = []))
   \<and> Version_str \<lparr>major = 1, minor = 2, stage = FINAL, stage_no = 0, local = []\<rparr> = ''1.2''
   \<and> Version_str \<lparr>major = 1, minor = 2, stage = ALPHA, stage_no = 3,
                    local = [''dev'', ''5'', ''gabc'']\<rparr> = ''1.2-alpha.3+dev.5.gabc''
   \<and> Version_str \<lparr>major = 1, minor = 0, stage = FINAL, stage_no = 0, local = [''local'']\<rparr>
       = ''1.0+local''
   \<and> Version_str \<lparr>major = 2020, minor = 105, stage = DEV, stage_no = 4821, local = []\<rparr>
       = ''2020.105-dev.4821''
   \<and> Version_str \<lparr>major = 0, minor = 9, stage = BETA, stage_no = 0, local = [''x'', ''y'']\<rparr>
       = ''0.9-beta.0+x.y''
   \<and> Version_str \<lparr>major = 12, minor = 0, stage = RC, stage_no = 10, local = []\<rparr>
       = ''12.0-rc.10''"
proof -
  have general: "Version_str v =
     str_int (major v) @ ''.'' @ str_int (minor v)
       @ (case stage v of
            DEV \<Rightarrow> ''-dev.'' @ str_int (stage_no v)
          | ALPHA \<Rightarrow> ''-alpha.'' @ str_int (stage_no v)
          | BETA \<Rightarrow> ''-beta.'' @ str_int (stage_no v)
          | RC \<Rightarrow> ''-rc.'' @ str_int (stage_no v)
          | FINAL \<Rightarrow> [])
       @ (if local v = [] then []
          else ''+'' @ hd (local v) @ concat (map (\<lambda>seg. CHR ''.'' # seg) (tl (local v))))"
    by (cases "stage v") (simp_all add: Version_str_def Let_def join_dots)
  have alone: "(Version_str v = str_int (major v) @ ''.'' @ str_int (minor v))
        = (stage v = FINAL \<and> local v = [])"
    by (cases "stage v") (simp_all add: Version_str_def Let_def)
  show ?thesis
    using general alone
      Version_str_instances [unfolded alpha_version_def final_local_version_def dev_version_def
        beta_version_def rc_version_def]
    by blast
qed

theorem Version_str_rendering_witness:
  "Version_str alpha_version = ''1.2-alpha.3+dev.5.gabc''
   \<and> Version_str final_local_version = ''1.0+local''
   \<and> Version_str rc_version = ''12.0-rc.10''
   \<and> Version_str alpha_version \<noteq> ''1.2''"
proof -
  have digits: "str_int 1 = ''1''" "str_int 2 = ''2''" "str_int 3 = ''3''" "str_int 0 = ''0''"
    "str_int 12 = ''12''" "str_int 10 = ''10''"
    by code_simp+
  show ?thesis
    using Version_str_rendering [of alpha_version] Version_str_rendering [of final_local_version]
      Version_str_rendering [of rc_version] digits
    by (simp add: alpha_version_def final_local_version_def rc_version_def)
qed

text \<open>
  Claim C7, as stated, speaks of every foreign version. \<open>parse_version\<close> reads
  \<open>release[0]\<close> and \<open>release[1]\<close>: for the version \<open>1a1\<close>, whose release is the single
  number 1, the pre-release letter is \<open>a\<close> and yet no \<open>Version\<close> of stage \<open>ALPHA\<close> is
  returned, the call raises \<open>IndexError\<close>.
\<close>

theorem parse_version_short_release_counterexample:
  "pre short_release_foreign = Some (''a'', 1)
   \<and> release short_release_foreign = [1]
   \<and> parse_version short_release_foreign = Inl IndexError"
  by (simp add: short_release_foreign_def parse_version_def parse_stage_def tuple_get_def)

text \<open>
  Claim C7, amended. For every foreign version whose release has at least two numbers:
  a pre-release marker with letter \<open>a\<close>, \<open>b\<close> or \<open>c\<close> gives stage \<open>ALPHA\<close>, \<open>BETA\<close> or
  \<open>RC\<close> with the marker's number as \<open>stage_no\<close>, and a dev-marker beside it contributes
  the local segments \<open>dev\<close> and its number as a string; a dev-marker alone gives stage
  \<open>DEV\<close> with its number; neither marker gives \<open>FINAL\<close> with \<open>stage_no\<close> 0; the foreign
  local segments follow, in order, the dev-derived ones. Whatever the release, a
  pre-release letter other than \<open>a\<close>, \<open>b\<close>, \<open>c\<close> raises \<open>MetadataError\<close>.
\<close>

theorem parse_version_stage:
  "(\<forall>letter n. pre v = Some (letter, n) \<and> letter \<notin> {''a'', ''b'', ''c''} \<longrightarrow>
        (\<exists>msg. parse_version v = Inl (MetadataError msg)))
   \<and> (2 \<le> length (release v) \<longrightarrow>
        (let dev_segs = (case dev v of Some (_, d) \<Rightarrow> [''dev'', str_int d] | None \<Rightarrow> []);
             local_segs = (case flocal v of Some segs \<Rightarrow> segs | None \<Rightarrow> [])
         in (\<forall>letter n. pre v = Some (letter, n) \<and> letter \<in> {''a'', ''b'', ''c''} \<longrightarrow>
               parse_version v =
                 Inr \<lparr>major = release v ! 0, minor = release v ! 1,
                      stage = (if letter = ''a'' then ALPHA else if letter = ''b'' then BETA else RC),
                      stage_no = n, local = dev_segs @ local_segs\<rparr>)
            \<and> (\<forall>tag d. pre v = None \<and> dev v = Some (tag, d) \<longrightarrow>
               parse_version v =
                 Inr \<lparr>major = release v ! 0, minor = release v ! 1, stage = DEV,
                      stage_no = d, local = local_segs\<rparr>)
            \<and> (pre v = None \<and> dev v = None \<longrightarrow>
               parse_version v =
                 Inr \<lparr>major = release v ! 0, minor = release v ! 1, stage = FINAL,
                      stage_no = 0, local = local_segs\<rparr>)))"
  by (auto simp: parse_version_def parse_stage_def tuple_get_def Let_def split: option.splits)

theorem parse_version_stage_witness:
  "pre example_foreign = Some (''b'', 2) \<and> 2 \<le> length (release example_foreign)
   \<and> parse_version example_foreign =
       Inr \<lparr>major = 1, minor = 0, stage = BETA, stage_no = 2,
            local = [''dev'', ''5'', ''gabc'', ''d2020'']\<rparr>"
  using parse_version_stage [of example_foreign]
  by (simp add: example_foreign_def str_int_digits)

subsection \<open>The cache of derived data\<close>

lemma cache_paths:
  "joinpath ''/cache'' ''std.pickle'' = ''/cache/std.pickle''"
  "parent_path ''/cache/std.pickle'' = ''/cache''"
  "joinpath ''/cache'' ''tmpk3x9'' = ''/cache/tmpk3x9''"
  by code_simp+

lemmas cache_eval =
  write_data_cache_def cache_dir_def cache_paths named_temporary_file_def
  exists_path_def write_body_def file_write_def os_rename_def os_unlink_def Let_def
  read_data_cache_def read_file_def

lemma file_write_ok: "file_write io cur data = Inr c \<Longrightarrow> c = cur @ data"
  by (auto simp: file_write_def split: option.splits if_splits)

lemma write_body_ok:
  "write_body dumps io obj key pickled = Inr written \<Longrightarrow>
     \<exists>payload. written = key @ payload \<and>
       (if pickled then dumps obj = Inr payload else obj = PyBytes payload)"
  by (auto simp: write_body_def split: sum.splits pyobj.splits if_splits dest!: file_write_ok)

lemma write_data_cache_returns:
  "write_data_cache cfg dumps io fs obj key path pickled dir = (fs', Inr ()) \<Longrightarrow>
     \<exists>td payload. cache_dir cfg dir = Inr td
        \<and> (if pickled then dumps obj = Inr payload else obj = PyBytes payload)
        \<and> fs' (joinpath td path) = Some (File (key @ payload))"
  by (auto simp: write_data_cache_def Let_def named_temporary_file_def os_rename_def
      split: sum.splits prod.splits option.splits node.splits if_splits dest!: write_body_ok)

lemma read_data_cache_hit:
  "cache_dir cfg dir = Inr sd \<Longrightarrow> fs (joinpath sd path) = Some (File (key @ payload)) \<Longrightarrow>
   loads payload = Inr obj \<Longrightarrow>
   read_data_cache cfg loads None fs key path True dir = ([], Inr obj)"
  by (simp add: read_data_cache_def Let_def exists_path_def read_file_def)

lemma read_data_cache_missing:
  "cache_dir cfg dir = Inr sd \<Longrightarrow> \<not> exists_path fs (joinpath sd path) \<Longrightarrow>
   read_data_cache cfg loads open_fault fs key path pickled dir = ([], Inr PyNone)"
  by (simp add: read_data_cache_def Let_def)

lemma read_data_cache_mismatch:
  "cache_dir cfg dir = Inr sd \<Longrightarrow> fs (joinpath sd path) = Some (File content) \<Longrightarrow>
   take (length key) content \<noteq> key \<Longrightarrow>
   read_data_cache cfg loads None fs key path pickled dir = ([], Inr PyNone)"
  by (simp add: read_data_cache_def Let_def exists_path_def read_file_def)

lemma read_data_cache_unpickle_fails:
  "cache_dir cfg dir = Inr sd \<Longrightarrow> fs (joinpath sd path) = Some (File content) \<Longrightarrow>
   take (length key) content = key \<Longrightarrow> loads (drop (length key) content) = Inl e \<Longrightarrow>
   read_data_cache cfg loads None fs key path True dir =
     ([''could not unpickle '' @ path], Inr PyNone)"
  by (simp add: read_data_cache_def Let_def exists_path_def read_file_def)

text \<open>
  Claim C1. When \<open>write_data_cache(obj, key, p)\<close> with \<open>pickled\<close> true has returned, and
  the serialisation gives \<open>obj\<close> back from what it produced for \<open>obj\<close>, then
  \<open>read_data_cache(key, p)\<close> with \<open>pickled\<close> true and the same directory returns \<open>obj\<close>, and
  logs nothing.
\<close>

theorem write_then_read_round_trip:
  assumes "write_data_cache cfg dumps io fs obj key path True dir = (fs', Inr ())"
    and "\<forall>b. dumps obj = Inr b \<longrightarrow> loads b = Inr obj"
  shows "read_data_cache cfg loads None fs' key path True dir = ([], Inr obj)"
proof -
  from write_data_cache_returns [OF assms(1)] obtain td payload where
    td: "cache_dir cfg dir = Inr td" and p: "dumps obj = Inr payload"
    and f: "fs' (joinpath td path) = Some (File (key @ payload))"
    by auto
  from p assms(2) have "loads payload = Inr obj" by simp
  then show ?thesis using td f by (simp add: read_data_cache_hit)
qed

theorem write_then_read_round_trip_witness:
  "snd (write_data_cache example_config example_dumps example_io cache_files (PyObj ''schema'')
          ''KEY'' ''std.pickle'' True (Some ''/cache'')) = Inr ()
   \<and> example_loads ''Sschema'' = Inr (PyObj ''schema'')
   \<and> read_data_cache example_config example_loads None
        (fst (write_data_cache example_config example_dumps example_io cache_files
               (PyObj ''schema'') ''KEY'' ''std.pickle'' True (Some ''/cache'')))
        ''KEY'' ''std.pickle'' True (Some ''/cache'') = ([], Inr (PyObj ''schema''))"
proof -
  let ?w = "write_data_cache example_config example_dumps example_io cache_files
              (PyObj ''schema'') ''KEY'' ''std.pickle'' True (Some ''/cache'')"
  have s: "snd ?w = Inr ()"
    by (simp add: cache_eval example_io_def cache_files_def)
  then have w: "?w = (fst ?w, Inr ())"
    by (simp add: prod_eq_iff)
  have r: "\<forall>b. example_dumps (PyObj ''schema'') = Inr b \<longrightarrow> example_loads b = Inr (PyObj ''schema'')"
    by simp
  show ?thesis using write_then_read_round_trip [OF w r] s by simp
qed

text \<open>
  Claim C10. After \<open>write_data_cache(None, key, p)\<close> with \<open>pickled\<close> true has returned
  (the serialisation giving \<open>None\<close> back from its pickle), \<open>read_data_cache(key, p)\<close>
  returns \<open>None\<close>: the value it also returns for a missing file, for a stored key that
  does not match, and for a payload that fails to deserialise.
\<close>

theorem cached_None_is_a_miss:
  assumes "write_data_cache cfg dumps io fs PyNone key path True dir = (fs', Inr ())"
    and "\<forall>b. dumps PyNone = Inr b \<longrightarrow> loads b = Inr PyNone"
  shows "snd (read_data_cache cfg loads None fs' key path True dir) = Inr PyNone
    \<and> (\<forall>fs0 sd. cache_dir cfg dir = Inr sd \<and> \<not> exists_path fs0 (joinpath sd path) \<longrightarrow>
          snd (read_data_cache cfg loads None fs0 key path True dir) = Inr PyNone)
    \<and> (\<forall>fs0 sd content. cache_dir cfg dir = Inr sd
            \<and> fs0 (joinpath sd path) = Some (File content)
            \<and> take (length key) content \<noteq> key \<longrightarrow>
          snd (read_data_cache cfg loads None fs0 key path True dir) = Inr PyNone)
    \<and> (\<forall>fs0 sd content e. cache_dir cfg dir = Inr sd
            \<and> fs0 (joinpath sd path) = Some (File content)
            \<and> take (length key) content = key
            \<and> loads (drop (length key) content) = Inl e \<longrightarrow>
          snd (read_data_cache cfg loads None fs0 key path True dir) = Inr PyNone)"
proof -
  from write_data_cache_returns [OF assms(1)] obtain td payload where
    td: "cache_dir cfg dir = Inr td" and p: "dumps PyNone = Inr payload"
    and f: "fs' (joinpath td path) = Some (File (key @ payload))"
    by auto
  from p assms(2) have "loads payload = Inr PyNone" by simp
  then have "snd (read_data_cache cfg loads None fs' key path True dir) = Inr PyNone"
    using td f by (simp add: read_data_cache_hit)
  then show ?thesis
    by (auto simp: read_data_cache_missing read_data_cache_mismatch
        read_data_cache_unpickle_fails)
qed

theorem cached_None_is_a_miss_witness:
  "snd (write_data_cache example_config example_dumps example_io cache_files PyNone
          ''KEY'' ''std.pickle'' True (Some ''/cache'')) = Inr ()
   \<and> example_loads ''N.'' = Inr PyNone
   \<and> snd (read_data_cache example_config example_loads None
        (fst (write_data_cache example_config example_dumps example_io cache_files
               PyNone ''KEY'' ''std.pickle'' True (Some ''/cache'')))
        ''KEY'' ''std.pickle'' True (Some ''/cache'')) = Inr PyNone
   \<and> \<not> exists_path Map.empty (joinpath ''/cache'' ''std.pickle'')
   \<and> snd (read_data_cache example_config example_loads None Map.empty
        ''KEY'' ''std.pickle'' True (Some ''/cache'')) = Inr PyNone"
proof -
  let ?w = "write_data_cache example_config example_dumps example_io cache_files
              PyNone ''KEY'' ''std.pickle'' True (Some ''/cache'')"
  have s: "snd ?w = Inr ()"
    by (simp add: cache_eval example_io_def cache_files_def)
  then have w: "?w = (fst ?w, Inr ())"
    by (simp add: prod_eq_iff)
  have r: "\<forall>b. example_dumps PyNone = Inr b \<longrightarrow> example_loads b = Inr PyNone"
    by simp
  have c: "cache_dir example_config (Some ''/cache'') = Inr ''/cache''"
    by (simp add: cache_dir_def)
  have m: "\<not> exists_path Map.empty (joinpath ''/cache'' ''std.pickle'')"
    by (simp add: exists_path_def)
  show ?thesis using cached_None_is_a_miss [OF w r] s c m by simp
qed




text \<open>
  Claim C2, as stated, says that a failure in the middle of the write leaves no residual
  temporary file. The deletion is best-effort: when \<open>os.unlink\<close> raises as well, its error
  is passed over and the temporary file stays, holding what had been written. Here the
  disk is full after two bytes and the deletion is refused.
\<close>

theorem write_data_cache_residual_counterexample:
  "snd (write_data_cache example_config example_dumps failing_io cache_files (PyObj ''schema'')
          ''KEY'' ''std.pickle'' True (Some ''/cache'')) = Inl (OSError ''ENOSPC'')
   \<and> fst (write_data_cache example_config example_dumps failing_io cache_files (PyObj ''schema'')
          ''KEY'' ''std.pickle'' True (Some ''/cache'')) ''/cache/tmpk3x9'' = Some (File ''KE'')
   \<and> cache_files ''/cache/tmpk3x9'' = None"
  by (simp add: cache_eval failing_io_def cache_files_def)

text \<open>
  Claim C2, amended. Once the temporary file exists: when the body of the write raises,
  \<open>os.unlink\<close> is attempted on the temporary file, an error of the deletion is ignored and
  the exception of the body is re-raised; if the deletion succeeded the file system is
  as it was before the call (no temporary file, the destination untouched), and if it
  failed the only difference is the temporary file left behind. When the body completes,
  the temporary file holds the key followed by the payload; a successful rename puts
  exactly that at \<open>full_path\<close>, replacing what was there, and leaves no temporary file;
  when \<open>os.rename\<close> raises, its exception propagates and the only difference is the
  temporary file left behind. In every outcome \<open>full_path\<close>, being another path than the
  temporary file, holds what it held before the call or, after a call that returned, the
  key followed by the whole payload: never a part of it.
\<close>

theorem write_data_cache_atomic:
  assumes "cache_dir cfg dir = Inr td"
    and "named_temporary_file io fs (parent_path (joinpath td path)) = Inr (f_name, fs1)"
  shows "fs f_name = None
     \<and> (\<forall>e written. write_body dumps io obj key pickled = Inl (e, written) \<longrightarrow>
          snd (write_data_cache cfg dumps io fs obj key path pickled dir) = Inl e
          \<and> (unlink_fault io = None \<longrightarrow>
               fst (write_data_cache cfg dumps io fs obj key path pickled dir) = fs)
          \<and> (unlink_fault io \<noteq> None \<longrightarrow>
               fst (write_data_cache cfg dumps io fs obj key path pickled dir)
                 = fs(f_name \<mapsto> File written)))
     \<and> (\<forall>written. write_body dumps io obj key pickled = Inr written \<longrightarrow>
          (\<exists>payload. written = key @ payload
              \<and> (if pickled then dumps obj = Inr payload else obj = PyBytes payload))
          \<and> (snd (write_data_cache cfg dumps io fs obj key path pickled dir) = Inr () \<longrightarrow>
               fst (write_data_cache cfg dumps io fs obj key path pickled dir)
                 = fs(joinpath td path \<mapsto> File written))
          \<and> (\<forall>e. snd (write_data_cache cfg dumps io fs obj key path pickled dir) = Inl e \<longrightarrow>
               os_rename io (fs(f_name \<mapsto> File written)) f_name (joinpath td path) = Inl e
               \<and> fst (write_data_cache cfg dumps io fs obj key path pickled dir)
                 = fs(f_name \<mapsto> File written)))
     \<and> (f_name \<noteq> joinpath td path \<longrightarrow>
          (snd (write_data_cache cfg dumps io fs obj key path pickled dir) \<noteq> Inr ()
             \<and> fst (write_data_cache cfg dumps io fs obj key path pickled dir) (joinpath td path)
                 = fs (joinpath td path))
          \<or> (snd (write_data_cache cfg dumps io fs obj key path pickled dir) = Inr ()
             \<and> (\<exists>payload. (if pickled then dumps obj = Inr payload else obj = PyBytes payload)
                  \<and> fst (write_data_cache cfg dumps io fs obj key path pickled dir)
                        (joinpath td path) = Some (File (key @ payload)))))"
proof -
  let ?w = "write_data_cache cfg dumps io fs obj key path pickled dir"
  let ?full = "joinpath td path"
  from assms(2) have fresh: "fs f_name = None" and fs1: "fs1 = fs(f_name \<mapsto> File [])"
    by (auto simp: named_temporary_file_def Let_def exists_path_def
        split: sum.splits if_splits)
  have gone: "(fs(f_name \<mapsto> x))(f_name := None) = fs" for x
    using fresh by (simp add: fun_upd_idem)
  have raised: "snd ?w = Inl e
      \<and> (unlink_fault io = None \<longrightarrow> fst ?w = fs)
      \<and> (unlink_fault io \<noteq> None \<longrightarrow> fst ?w = fs(f_name \<mapsto> File written))"
    if "write_body dumps io obj key pickled = Inl (e, written)" for e written
    using that assms fs1 gone
    by (auto simp: write_data_cache_def Let_def os_unlink_def exists_path_def
        split: option.splits)
  have renamed: "fst ?w = fs(?full \<mapsto> File written)"
    if "write_body dumps io obj key pickled = Inr written" and "snd ?w = Inr ()"
    for written
    using that assms fs1 gone
    by (auto simp: write_data_cache_def Let_def os_rename_def
        split: option.splits node.splits sum.splits)
  have refused: "os_rename io (fs(f_name \<mapsto> File written)) f_name ?full = Inl e
      \<and> fst ?w = fs(f_name \<mapsto> File written)"
    if "write_body dumps io obj key pickled = Inr written" and "snd ?w = Inl e"
    for written e
    using that assms fs1
    by (auto simp: write_data_cache_def Let_def split: sum.splits)
  have dest: "(snd ?w \<noteq> Inr () \<and> fst ?w ?full = fs ?full)
      \<or> (snd ?w = Inr ()
          \<and> (\<exists>payload. (if pickled then dumps obj = Inr payload else obj = PyBytes payload)
                \<and> fst ?w ?full = Some (File (key @ payload))))"
    if other: "f_name \<noteq> ?full"
  proof (cases "write_body dumps io obj key pickled")
    case (Inl err)
    obtain e written where err: "err = (e, written)" by (cases err)
    from raised [OF Inl [unfolded err]] other show ?thesis
      by (cases "unlink_fault io") auto
  next
    case (Inr written)
    from write_body_ok [OF Inr] obtain payload where
      payload: "written = key @ payload"
        "if pickled then dumps obj = Inr payload else obj = PyBytes payload"
      by blast
    show ?thesis
    proof (cases "snd ?w")
      case (Inl e)
      from refused [OF Inr Inl] other show ?thesis
        using Inl by simp
    next
      case ok: (Inr u)
      then have "snd ?w = Inr ()" by simp
      with renamed [OF Inr] payload show ?thesis
        by auto
    qed
  qed
  show ?thesis
    using fresh raised renamed refused dest write_body_ok [of dumps io obj key pickled]
    by blast
qed

theorem write_data_cache_atomic_witness:
  "cache_dir example_config (Some ''/cache'') = Inr ''/cache''
   \<and> named_temporary_file (failing_io\<lparr>unlink_fault := None\<rparr>) cache_files
        (parent_path (joinpath ''/cache'' ''std.pickle''))
       = Inr (''/cache/tmpk3x9'', cache_files(''/cache/tmpk3x9'' \<mapsto> File []))
   \<and> write_body example_dumps (failing_io\<lparr>unlink_fault := None\<rparr>) (PyObj ''schema'') ''KEY'' True
       = Inl (OSError ''ENOSPC'', ''KE'')
   \<and> write_data_cache example_config example_dumps (failing_io\<lparr>unlink_fault := None\<rparr>)
        cache_files (PyObj ''schema'') ''KEY'' ''std.pickle'' True (Some ''/cache'')
       = (cache_files, Inl (OSError ''ENOSPC''))
   \<and> write_body example_dumps rename_failing_io (PyObj ''schema'') ''KEY'' True
       = Inr ''KEYSschema''
   \<and> write_data_cache example_config example_dumps rename_failing_io
        cache_files (PyObj ''schema'') ''KEY'' ''std.pickle'' True (Some ''/cache'')
       = (cache_files(''/cache/tmpk3x9'' \<mapsto> File ''KEYSschema''), Inl (OSError ''EACCES''))
   \<and> (cache_files(''/cache/tmpk3x9'' \<mapsto> File ''KEYSschema'')) ''/cache/std.pickle''
       = Some (File ''old'')"
proof -
  let ?io = "failing_io\<lparr>unlink_fault := None\<rparr>"
  have c: "cache_dir example_config (Some ''/cache'') = Inr ''/cache''"
    by (simp add: cache_dir_def)
  have t: "named_temporary_file ?io cache_files (parent_path (joinpath ''/cache'' ''std.pickle''))
       = Inr (''/cache/tmpk3x9'', cache_files(''/cache/tmpk3x9'' \<mapsto> File []))"
    by (simp add: named_temporary_file_def cache_paths failing_io_def
        exists_path_def cache_files_def Let_def)
  have t': "named_temporary_file rename_failing_io cache_files
        (parent_path (joinpath ''/cache'' ''std.pickle''))
       = Inr (''/cache/tmpk3x9'', cache_files(''/cache/tmpk3x9'' \<mapsto> File []))"
    by (simp add: named_temporary_file_def cache_paths rename_failing_io_def
        exists_path_def cache_files_def Let_def)
  have b: "write_body example_dumps ?io (PyObj ''schema'') ''KEY'' True
       = Inl (OSError ''ENOSPC'', ''KE'')"
    by (simp add: write_body_def file_write_def failing_io_def)
  have b': "write_body example_dumps rename_failing_io (PyObj ''schema'') ''KEY'' True
       = Inr ''KEYSschema''"
    by (simp add: write_body_def file_write_def rename_failing_io_def)
  have u: "unlink_fault ?io = None"
    by simp
  have s': "snd (write_data_cache example_config example_dumps rename_failing_io
        cache_files (PyObj ''schema'') ''KEY'' ''std.pickle'' True (Some ''/cache''))
       = Inl (OSError ''EACCES'')"
    by (simp add: cache_eval rename_failing_io_def cache_files_def)
  have old: "(cache_files(''/cache/tmpk3x9'' \<mapsto> File ''KEYSschema'')) ''/cache/std.pickle''
       = Some (File ''old'')"
    by (simp add: cache_files_def)
  show ?thesis
    using write_data_cache_atomic [OF c t, of example_dumps "PyObj ''schema''" "''KEY''" True]
      write_data_cache_atomic [OF c t', of example_dumps "PyObj ''schema''" "''KEY''" True]
      c t b b' u s' old
    by (simp add: prod_eq_iff)
qed

subsection \<open>The directory hasher\<close>

text \<open>
  The walk with an accumulator equals the walk from the empty list appended to the
  accumulator; this reduces every statement to walks that start empty.
\<close>

lemma hash_entries_acc:
  assumes "\<And>d paths. hash_dir n sc d ext paths =
             (case hash_dir n sc d ext [] of Inl e \<Rightarrow> Inl e | Inr ps \<Rightarrow> Inr (paths @ ps))"
  shows "hash_entries n sc ext es paths =
           (case hash_entries n sc ext es [] of Inl e \<Rightarrow> Inl e | Inr ps \<Rightarrow> Inr (paths @ ps))"
proof (induction es arbitrary: paths)
  case Nil
  show ?case by simp
next
  case (Cons entry rest)
  note step = Cons.IH
  show ?case
  proof (cases "entry_is_file entry \<and> endswith (entry_name entry) ext")
    case True
    then show ?thesis
      using step [of "paths @ [entry_path entry]"] step [of "[entry_path entry]"]
      by (simp split: sum.splits)
  next
    case False
    show ?thesis
    proof (cases "entry_is_dir entry")
      case True
      show ?thesis
      proof (cases "hash_dir n sc (entry_path entry) ext []")
        case (Inl e)
        then show ?thesis
          using False True assms [of "entry_path entry" paths] by auto
      next
        case (Inr ps)
        then show ?thesis
          using False True assms [of "entry_path entry" paths]
            step [of "paths @ ps"] step [of ps]
          by (auto split: sum.splits)
      qed
    next
      case notdir: False
      then show ?thesis using False step [of paths] by auto
    qed
  qed
qed

lemma hash_dir_acc:
  "hash_dir n sc d ext paths =
     (case hash_dir n sc d ext [] of Inl e \<Rightarrow> Inl e | Inr ps \<Rightarrow> Inr (paths @ ps))"
proof (induction n arbitrary: d paths)
  case 0
  show ?case by simp
next
  case (Suc n)
  show ?case
  proof (cases "sc d")
    case (Inl e)
    then show ?thesis by simp
  next
    case (Inr es)
    then show ?thesis
      using hash_entries_acc [of n sc ext es paths, OF Suc.IH] by simp
  qed
qed

lemmas hash_entries_acc' = hash_entries_acc [OF hash_dir_acc]

lemma hash_entries_fails:
  "isl (hash_entries n sc ext es []) = (\<exists>e \<in> set es. entry_fails n sc ext e)"
proof (induction es)
  case Nil
  show ?case by simp
next
  case (Cons entry rest)
  show ?case
    using Cons.IH hash_entries_acc' [of n sc ext rest "[entry_path entry]"]
      hash_entries_acc' [of n sc ext rest "projr (hash_dir n sc (entry_path entry) ext [])"]
    by (auto simp: entry_fails_def walk_fails_def split: sum.splits)
qed

lemma hash_entries_matched:
  "hash_entries n sc ext es [] = Inr ps \<Longrightarrow>
     mset ps = (\<Sum>e \<in># mset es. entry_matched n sc ext e)"
proof (induction es arbitrary: ps)
  case Nil
  then show ?case by simp
next
  case (Cons entry rest)
  show ?case
    using Cons.prems Cons.IH hash_entries_acc' [of n sc ext rest "[entry_path entry]"]
      hash_entries_acc' [of n sc ext rest "projr (hash_dir n sc (entry_path entry) ext [])"]
    by (auto simp: entry_matched_def matched_def split: sum.splits if_splits)
qed


lemma walk_fails_Suc:
  "walk_fails (Suc n) sc d ext =
     (case sc d of Inl _ \<Rightarrow> True | Inr es \<Rightarrow> \<exists>e \<in> set es. entry_fails n sc ext e)"
  using hash_entries_fails [of n sc ext]
  by (simp add: walk_fails_def split: sum.splits)

lemma matched_Suc:
  "sc d = Inr es \<Longrightarrow> \<not> walk_fails (Suc n) sc d ext \<Longrightarrow>
     matched (Suc n) sc d ext = (\<Sum>e \<in># mset es. entry_matched n sc ext e)"
  using hash_entries_matched [of n sc ext es]
  by (auto simp: matched_def walk_fails_def split: sum.splits)

lemma matched_fails: "walk_fails n sc d ext \<Longrightarrow> matched n sc d ext = {#}"
  by (auto simp: matched_def walk_fails_def split: sum.splits)

lemma walk_same:
  assumes same: "\<forall>d. case sc1 d of Inl _ \<Rightarrow> isl (sc2 d)
                     | Inr es \<Rightarrow> \<exists>es'. sc2 d = Inr es' \<and> mset es' = mset es"
  shows "walk_fails n sc1 d ext = walk_fails n sc2 d ext
       \<and> matched n sc1 d ext = matched n sc2 d ext"
proof (induction n arbitrary: d)
  case 0
  show ?case by (simp add: walk_fails_def matched_def)
next
  case (Suc n)
  have ef: "entry_fails n sc1 ext e = entry_fails n sc2 ext e" for e
    using Suc.IH by (simp add: entry_fails_def)
  have em: "entry_matched n sc1 ext e = entry_matched n sc2 ext e" for e
    using Suc.IH by (simp add: entry_matched_def)
  from same have sd: "case sc1 d of Inl _ \<Rightarrow> isl (sc2 d)
                     | Inr es \<Rightarrow> \<exists>es'. sc2 d = Inr es' \<and> mset es' = mset es"
    by (rule spec)
  show ?case
  proof (cases "sc1 d")
    case (Inl e)
    with sd have "isl (sc2 d)"
      by simp
    then obtain e' where "sc2 d = Inl e'"
      by (cases "sc2 d") auto
    with Inl show ?thesis
      by (simp add: walk_fails_Suc matched_fails)
  next
    case (Inr es)
    with sd obtain es' where es': "sc2 d = Inr es'" "mset es' = mset es"
      by auto
    then have sets: "set es' = set es"
      by (metis mset_eq_setD)
    have f: "walk_fails (Suc n) sc1 d ext = walk_fails (Suc n) sc2 d ext"
      using Inr es' sets ef by (simp add: walk_fails_Suc)
    show ?thesis
    proof (cases "walk_fails (Suc n) sc1 d ext")
      case True
      with f show ?thesis by (simp add: matched_fails)
    next
      case False
      with f have "\<not> walk_fails (Suc n) sc2 d ext" by simp
      with False Inr es' em f show ?thesis
        by (simp add: matched_Suc)
    qed
  qed
qed

lemma collect_paths_acc:
  "collect_paths n sc dirs paths =
     (case collect_paths n sc dirs [] of Inl e \<Rightarrow> Inl e | Inr ps \<Rightarrow> Inr (paths @ ps))"
proof (induction dirs arbitrary: paths)
  case Nil
  show ?case by simp
next
  case (Cons pair dirs)
  obtain d ext where pair: "pair = (d, ext)" by (cases pair)
  show ?case
  proof (cases "hash_dir n sc d ext []")
    case (Inl e)
    then show ?thesis
      using pair hash_dir_acc [of n sc d ext paths] by simp
  next
    case (Inr ps)
    then show ?thesis
      using pair hash_dir_acc [of n sc d ext paths] Cons.IH [of "paths @ ps"] Cons.IH [of ps]
      by (simp split: sum.splits)
  qed
qed

lemma collect_paths_fails:
  "isl (collect_paths n sc dirs []) = (\<exists>(d, ext) \<in> set dirs. walk_fails n sc d ext)"
proof (induction dirs)
  case Nil
  show ?case by simp
next
  case (Cons pair dirs)
  obtain d ext where pair: "pair = (d, ext)" by (cases pair)
  show ?case
    using Cons.IH pair
      collect_paths_acc [of n sc dirs "projr (hash_dir n sc d ext [])"]
    by (auto simp: walk_fails_def split: sum.splits)
qed

lemma collect_paths_matched:
  "collect_paths n sc dirs [] = Inr ps \<Longrightarrow>
     mset ps = (\<Sum>(d, ext) \<in># mset dirs. matched n sc d ext)"
proof (induction dirs arbitrary: ps)
  case Nil
  then show ?case by simp
next
  case (Cons pair dirs)
  obtain d ext where pair: "pair = (d, ext)" by (cases pair)
  show ?case
    using Cons.prems Cons.IH pair
      collect_paths_acc [of n sc dirs "projr (hash_dir n sc d ext [])"]
    by (auto simp: matched_def split: sum.splits)
qed

lemma collect_paths_same:
  assumes same: "\<forall>d. case sc1 d of Inl _ \<Rightarrow> isl (sc2 d)
                     | Inr es \<Rightarrow> \<exists>es'. sc2 d = Inr es' \<and> mset es' = mset es"
    and dirs: "mset dirs2 = mset dirs1"
    and ok: "collect_paths n sc1 dirs1 [] = Inr ps1"
  shows "\<exists>ps2. collect_paths n sc2 dirs2 [] = Inr ps2 \<and> mset ps2 = mset ps1"
proof -
  have sets: "set dirs2 = set dirs1"
    using dirs by (metis mset_eq_setD)
  from ok have "\<not> isl (collect_paths n sc1 dirs1 [])" by simp
  then have "\<not> isl (collect_paths n sc2 dirs2 [])"
    using walk_same [OF same] sets by (simp add: collect_paths_fails)
  then obtain ps2 where ps2: "collect_paths n sc2 dirs2 [] = Inr ps2"
    by (cases "collect_paths n sc2 dirs2 []") auto
  have "mset ps2 = (\<Sum>(d, ext) \<in># mset dirs2. matched n sc2 d ext)"
    using ps2 by (rule collect_paths_matched)
  also have "\<dots> = (\<Sum>(d, ext) \<in># mset dirs1. matched n sc1 d ext)"
    using walk_same [OF same] dirs by simp
  also have "\<dots> = mset ps1"
    using ok by (rule collect_paths_matched [symmetric])
  finally show ?thesis using ps2 by blast
qed

lemma sort_same: "mset xs = mset ys \<Longrightarrow> sort xs = sort (ys :: string list)"
  by (rule properties_for_sort) simp_all

lemma hash_input_same:
  assumes same: "\<forall>d. case sc1 d of Inl _ \<Rightarrow> isl (sc2 d)
                     | Inr es \<Rightarrow> \<exists>es'. sc2 d = Inr es' \<and> mset es' = mset es"
    and dirs: "mset dirs2 = mset dirs1"
    and ok: "hash_input n sc1 fs dirs1 = Inr fed"
  shows "hash_input n sc2 fs dirs2 = Inr fed"
proof -
  from ok obtain ps1 where ps1: "collect_paths n sc1 dirs1 [] = Inr ps1"
    and fed: "feed_files fs (sort ps1) [] = Inr fed"
    by (auto simp: hash_input_def split: sum.splits)
  from collect_paths_same [OF same dirs ps1] obtain ps2 where
    ps2: "collect_paths n sc2 dirs2 [] = Inr ps2" "mset ps2 = mset ps1"
    by blast
  then have "sort ps2 = sort ps1" by (intro sort_same)
  with ps2 fed show ?thesis by (simp add: hash_input_def)
qed

lemma listing_same_sym:
  assumes "\<forall>d. case sc1 d of Inl _ \<Rightarrow> isl (sc2 d)
                | Inr es \<Rightarrow> \<exists>es'. sc2 d = Inr es' \<and> mset es' = mset es"
  shows "\<forall>d. case sc2 d of Inl _ \<Rightarrow> isl (sc1 d)
                | Inr es \<Rightarrow> \<exists>es'. sc1 d = Inr es' \<and> mset es' = mset es"
proof
  fix d
  from assms have "case sc1 d of Inl _ \<Rightarrow> isl (sc2 d)
                | Inr es \<Rightarrow> \<exists>es'. sc2 d = Inr es' \<and> mset es' = mset es" ..
  then show "case sc2 d of Inl _ \<Rightarrow> isl (sc1 d)
                | Inr es \<Rightarrow> \<exists>es'. sc1 d = Inr es' \<and> mset es' = mset es"
    by (cases "sc1 d"; cases "sc2 d") auto
qed

text \<open>
  Claim C4. Let two file systems list every directory with the same entries, in any two
  orders (and fail on the same directories), and let the \<open>(dir, ext)\<close> pairs of the
  second run be a permutation of those of the first. Then one run of \<open>hash_dirs\<close>
  returns a digest exactly when the other returns the same digest: the matched paths are
  sorted before their contents are hashed.
\<close>

theorem hash_dirs_order_independent:
  assumes "\<forall>d. case sc1 d of Inl _ \<Rightarrow> isl (sc2 d)
                | Inr es \<Rightarrow> \<exists>es'. sc2 d = Inr es' \<and> mset es' = mset es"
    and "mset dirs2 = mset dirs1"
  shows "(hash_dirs sha1 limit sc1 fs dirs1 = Inr digest)
       = (hash_dirs sha1 limit sc2 fs dirs2 = Inr digest)"
proof -
  have fwd: "hash_input limit sc2 fs dirs2 = Inr fed"
    if "hash_input limit sc1 fs dirs1 = Inr fed" for fed
    using that by (rule hash_input_same [OF assms])
  have bwd: "hash_input limit sc1 fs dirs1 = Inr fed"
    if "hash_input limit sc2 fs dirs2 = Inr fed" for fed
    using that by (rule hash_input_same [OF listing_same_sym [OF assms(1)] assms(2) [symmetric]])
  show ?thesis
  proof (cases "hash_input limit sc1 fs dirs1")
    case (Inr fed)
    with fwd [OF Inr] show ?thesis by (simp add: hash_dirs_def)
  next
    case (Inl e)
    show ?thesis
    proof (cases "hash_input limit sc2 fs dirs2")
      case (Inr fed)
      with bwd [OF Inr] Inl show ?thesis by simp
    next
      case Inl2: (Inl e2)
      with Inl show ?thesis by (simp add: hash_dirs_def)
    qed
  qed
qed

theorem hash_dirs_order_independent_witness:
  "mset (rev src_dirs) = mset src_dirs
   \<and> hash_dirs toy_digest 5 src_scandir src_files src_dirs = Inr (toy_digest ''XABC'')
   \<and> hash_dirs toy_digest 5 reversed_scandir src_files (rev src_dirs) = Inr (toy_digest ''XABC'')"
proof -
  have same: "\<forall>d. case src_scandir d of Inl _ \<Rightarrow> isl (reversed_scandir d)
               | Inr es \<Rightarrow> \<exists>es'. reversed_scandir d = Inr es' \<and> mset es' = mset es"
    by (simp add: reversed_scandir_def split: sum.splits)
  have dirs: "mset (rev src_dirs) = mset src_dirs"
    by simp
  have run: "hash_dirs toy_digest 5 src_scandir src_files src_dirs = Inr (toy_digest ''XABC'')"
    by code_simp
  show ?thesis
    using hash_dirs_order_independent [OF same dirs, of toy_digest 5 src_files "toy_digest ''XABC''"]
      dirs run
    by simp
qed

text \<open>
  Claim C5, as stated, says that adding or removing a matched file changes the digest.
  Only the contents of the matched files are hashed, neither their paths nor their number:
  after the empty file \<open>src/empty.py\<close> has been added, the walk matches it, and the bytes
  fed to the hash, hence the digest, are what they were.
\<close>

theorem hash_dirs_empty_file_counterexample:
  "collect_paths 5 src_scandir src_dirs []
     = Inr [''src/b.py'', ''src/pkg/c.py'', ''src/a.py'', ''lib/x.edgeql'']
   \<and> collect_paths 5 grown_scandir src_dirs []
     = Inr [''src/b.py'', ''src/pkg/c.py'', ''src/a.py'', ''src/empty.py'', ''lib/x.edgeql'']
   \<and> read_file grown_files ''src/empty.py'' = Inr []
   \<and> hash_dirs toy_digest 5 src_scandir src_files src_dirs = Inr (toy_digest ''XABC'')
   \<and> hash_dirs toy_digest 5 grown_scandir grown_files src_dirs = Inr (toy_digest ''XABC'')"
  by code_simp

lemma feed_files_fed:
  "feed_files fs ps h = Inr fed \<Longrightarrow>
     fed = h @ concat (map (file_bytes fs) ps) \<and> (\<forall>p \<in> set ps. fs p = Some (File (file_bytes fs p)))"
proof (induction ps arbitrary: h)
  case Nil
  then show ?case by simp
next
  case (Cons p ps)
  from Cons.prems obtain b where b: "fs p = Some (File b)"
    and rest: "feed_files fs ps (h @ b) = Inr fed"
    by (auto simp: read_file_def split: option.splits node.splits sum.splits)
  from Cons.IH [OF rest] b show ?case
    by (simp add: file_bytes_def)
qed

lemma length_concat_mset:
  "length (concat (map f xs)) = (\<Sum>x \<in># mset xs. length (f x))"
  by (induction xs) simp_all

lemma sum_list_change:
  fixes g g' :: "'a \<Rightarrow> nat"
  assumes "\<forall>q \<in> set xs. q \<noteq> p \<longrightarrow> g' q = g q"
  shows "sum_list (map g xs) + count_list xs p * g' p = sum_list (map g' xs) + count_list xs p * g p"
  using assms by (induction xs) (auto simp: algebra_simps)

lemma zip_map_lengths:
  "\<forall>q \<in> set xs. length (f' q) = length (f q) \<Longrightarrow>
     \<forall>(x, y) \<in> set (zip (map f' xs) (map f xs)). length x = length y"
  by (induction xs) auto

lemma concat_change:
  assumes p: "p \<in> set xs" and diff: "f' p \<noteq> f p"
    and others: "\<forall>q \<in> set xs. q \<noteq> p \<longrightarrow> f' q = f q"
  shows "concat (map f' xs) \<noteq> concat (map f xs)"
proof (cases "length (f' p) = length (f p)")
  case True
  have "\<forall>q \<in> set xs. length (f' q) = length (f q)"
    using True others by metis
  then have "\<forall>(x, y) \<in> set (zip (map f' xs) (map f xs)). length x = length y"
    by (rule zip_map_lengths)
  then have "(concat (map f' xs) = concat (map f xs)) = (map f' xs = map f xs)"
    by (intro concat_eq_concat_iff) simp_all
  with p diff show ?thesis by auto
next
  case False
  have "sum_list (map (length \<circ> f) xs) + count_list xs p * length (f' p)
      = sum_list (map (length \<circ> f') xs) + count_list xs p * length (f p)"
    using sum_list_change [of xs p "length \<circ> f'" "length \<circ> f"] others by simp
  moreover have "0 < count_list xs p"
    using p count_list_0_iff [of xs p] by (cases "count_list xs p") auto
  ultimately have "sum_list (map (length \<circ> f) xs) \<noteq> sum_list (map (length \<circ> f') xs)"
    using False by auto
  then have "length (concat (map f' xs)) \<noteq> length (concat (map f xs))"
    by (simp add: length_concat comp_def)
  then show ?thesis by auto
qed


lemma hash_input_fed:
  assumes "collect_paths limit sc dirs [] = Inr ps"
    and "hash_input limit sc fs dirs = Inr fed"
  shows "fed = concat (map (file_bytes fs) (sort ps))"
    and "\<forall>p \<in> set ps. fs p = Some (File (file_bytes fs p))"
  using assms feed_files_fed [of fs "sort ps" "[]" fed]
  by (simp_all add: hash_input_def)

lemma hash_dirs_of_input:
  "hash_input limit sc fs dirs = Inr fed \<Longrightarrow> hash_dirs sha1 limit sc fs dirs = Inr (sha1 fed)"
  by (simp add: hash_dirs_def)

lemma fed_changed:
  assumes fed: "fed = concat (map (file_bytes fs) (sort ps))"
    and fed': "fed' = concat (map (file_bytes fs') (sort ps'))"
    and files: "\<forall>p \<in> set ps. fs p = Some (File (file_bytes fs p))"
    and files': "\<forall>p \<in> set ps'. fs' p = Some (File (file_bytes fs' p))"
    and same: "mset ps' = mset ps"
    and p: "p \<in> set ps" "fs' p \<noteq> fs p"
    and others: "\<forall>q \<in> set ps. q \<noteq> p \<longrightarrow> fs' q = fs q"
  shows "fed' \<noteq> fed"
proof -
  have sets: "set ps' = set ps"
    using same by (metis mset_eq_setD)
  have sorted: "sort ps' = sort ps"
    using same by (rule sort_same)
  have "file_bytes fs' p \<noteq> file_bytes fs p"
    using p files files' sets by metis
  moreover have "\<forall>q \<in> set (sort ps). q \<noteq> p \<longrightarrow> file_bytes fs' q = file_bytes fs q"
    using others by (simp add: file_bytes_def)
  moreover have "p \<in> set (sort ps)"
    using p by simp
  ultimately have "concat (map (file_bytes fs') (sort ps)) \<noteq> concat (map (file_bytes fs) (sort ps))"
    by (intro concat_change)
  then show ?thesis
    using fed fed' sorted by simp
qed

lemma fed_grown:
  assumes fed: "fed = concat (map (file_bytes fs) (sort ps))"
    and fed': "fed' = concat (map (file_bytes fs') (sort ps'))"
    and files': "\<forall>p \<in> set ps'. fs' p = Some (File (file_bytes fs' p))"
    and more: "mset ps \<subset># mset ps'"
    and kept: "\<forall>q \<in> set ps. fs' q = fs q"
    and nonempty: "\<forall>q. q \<in># mset ps' - mset ps \<longrightarrow> fs' q \<noteq> Some (File [])"
  shows "length fed < length fed'"
proof -
  define D where "D = mset ps' - mset ps"
  have split: "mset ps' = mset ps + D"
    using more by (simp add: D_def subset_mset.less_imp_le)
  have "D \<noteq> {#}"
    using more split by auto
  then obtain q where q: "q \<in># D"
    by auto
  then have "q \<in> set ps'"
    using split by (metis set_mset_mset union_iff)
  with files' nonempty q have "file_bytes fs' q \<noteq> []"
    unfolding D_def by metis
  with q have pos: "0 < (\<Sum>x \<in># D. length (file_bytes fs' x))"
    by (auto simp: zero_less_iff_neq_zero)
  have "(\<Sum>x \<in># mset ps. length (file_bytes fs' x)) = (\<Sum>x \<in># mset ps. length (file_bytes fs x))"
    using kept by (intro arg_cong [where f = sum_mset] image_mset_cong) (simp add: file_bytes_def)
  then have "length fed' = length fed + (\<Sum>x \<in># D. length (file_bytes fs' x))"
    using fed fed' split by (simp add: length_concat_mset)
  with pos show ?thesis by simp
qed

text \<open>
  Claim C5, amended. When both runs succeed, \<open>hash_dirs\<close> returns the digest of the
  concatenation of the matched files' contents in sorted path order, and that
  concatenation differs between the two runs whenever the matched paths are the same and
  the content of one matched file has changed, or matched files have been added (or,
  read from right to left, removed) none of which is empty, the others keeping their
  contents. The digests then differ unless SHA-1 maps the two byte strings to one value.
\<close>

theorem hash_dirs_sensitive:
  assumes ps: "collect_paths limit sc dirs [] = Inr ps"
    and ps': "collect_paths limit sc' dirs [] = Inr ps'"
    and fed: "hash_input limit sc fs dirs = Inr fed"
    and fed': "hash_input limit sc' fs' dirs = Inr fed'"
    and change:
      "(mset ps' = mset ps
         \<and> (\<exists>p \<in> set ps. fs' p \<noteq> fs p \<and> (\<forall>q \<in> set ps. q \<noteq> p \<longrightarrow> fs' q = fs q)))
       \<or> (mset ps \<subset># mset ps' \<and> (\<forall>q \<in> set ps. fs' q = fs q)
         \<and> (\<forall>q. q \<in># mset ps' - mset ps \<longrightarrow> fs' q \<noteq> Some (File [])))"
  shows "fed' \<noteq> fed
       \<and> hash_dirs sha1 limit sc fs dirs = Inr (sha1 fed)
       \<and> hash_dirs sha1 limit sc' fs' dirs = Inr (sha1 fed')"
proof -
  note a = hash_input_fed [OF ps fed]
  note b = hash_input_fed [OF ps' fed']
  from change have "fed' \<noteq> fed"
  proof
    assume "mset ps' = mset ps
         \<and> (\<exists>p \<in> set ps. fs' p \<noteq> fs p \<and> (\<forall>q \<in> set ps. q \<noteq> p \<longrightarrow> fs' q = fs q))"
    then obtain p where "mset ps' = mset ps" "p \<in> set ps" "fs' p \<noteq> fs p"
      "\<forall>q \<in> set ps. q \<noteq> p \<longrightarrow> fs' q = fs q"
      by blast
    then show ?thesis
      by (rule fed_changed [OF a(1) b(1) a(2) b(2)])
  next
    assume "mset ps \<subset># mset ps' \<and> (\<forall>q \<in> set ps. fs' q = fs q)
         \<and> (\<forall>q. q \<in># mset ps' - mset ps \<longrightarrow> fs' q \<noteq> Some (File []))"
    then have "length fed < length fed'"
      using fed_grown [OF a(1) b(1) b(2)] by blast
    then show ?thesis by auto
  qed
  then show ?thesis
    using fed fed' by (simp add: hash_dirs_of_input)
qed

theorem hash_dirs_sensitive_witness:
  "collect_paths 5 src_scandir src_dirs []
     = Inr [''src/b.py'', ''src/pkg/c.py'', ''src/a.py'', ''lib/x.edgeql'']
   \<and> hash_input 5 src_scandir src_files src_dirs = Inr ''XABC''
   \<and> hash_input 5 src_scandir (src_files(''src/a.py'' \<mapsto> File ''AA'')) src_dirs = Inr ''XAABC''
   \<and> ''XAABC'' \<noteq> ''XABC''
   \<and> hash_dirs toy_digest 5 src_scandir src_files src_dirs = Inr (toy_digest ''XABC'')
   \<and> hash_dirs toy_digest 5 src_scandir (src_files(''src/a.py'' \<mapsto> File ''AA'')) src_dirs
       = Inr (toy_digest ''XAABC'')
   \<and> collect_paths 5 grown_scandir src_dirs []
     = Inr [''src/b.py'', ''src/pkg/c.py'', ''src/a.py'', ''src/empty.py'', ''lib/x.edgeql'']
   \<and> hash_input 5 grown_scandir (grown_files(''src/empty.py'' \<mapsto> File ''E'')) src_dirs
       = Inr ''XABEC''
   \<and> ''XABEC'' \<noteq> ''XABC''"
proof -
  let ?ps = "[''src/b.py'', ''src/pkg/c.py'', ''src/a.py'', ''lib/x.edgeql'']"
  let ?ps' = "[''src/b.py'', ''src/pkg/c.py'', ''src/a.py'', ''src/empty.py'', ''lib/x.edgeql'']"
  let ?changed = "src_files(''src/a.py'' \<mapsto> File ''AA'')"
  let ?grown = "grown_files(''src/empty.py'' \<mapsto> File ''E'')"
  have ps: "collect_paths 5 src_scandir src_dirs [] = Inr ?ps"
    by code_simp
  have ps': "collect_paths 5 grown_scandir src_dirs [] = Inr ?ps'"
    by code_simp
  have fed: "hash_input 5 src_scandir src_files src_dirs = Inr ''XABC''"
    by code_simp
  have fed1: "hash_input 5 src_scandir ?changed src_dirs = Inr ''XAABC''"
    by code_simp
  have fed2: "hash_input 5 grown_scandir ?grown src_dirs = Inr ''XABEC''"
    by code_simp
  have "?changed ''src/a.py'' \<noteq> src_files ''src/a.py''"
    by (simp add: src_files_def)
  then have change1: "(mset ?ps = mset ?ps
         \<and> (\<exists>p \<in> set ?ps. ?changed p \<noteq> src_files p
              \<and> (\<forall>q \<in> set ?ps. q \<noteq> p \<longrightarrow> ?changed q = src_files q)))
       \<or> (mset ?ps \<subset># mset ?ps \<and> (\<forall>q \<in> set ?ps. ?changed q = src_files q)
         \<and> (\<forall>q. q \<in># mset ?ps - mset ?ps \<longrightarrow> ?changed q \<noteq> Some (File [])))"
    by simp
  have more: "mset ?ps \<subset># mset ?ps'"
    by simp
  have kept: "\<forall>q \<in> set ?ps. ?grown q = src_files q"
    by (simp add: grown_files_def)
  have new: "\<forall>q. q \<in># mset ?ps' - mset ?ps \<longrightarrow> ?grown q \<noteq> Some (File [])"
    by simp
  have change2: "(mset ?ps' = mset ?ps
         \<and> (\<exists>p \<in> set ?ps. ?grown p \<noteq> src_files p
              \<and> (\<forall>q \<in> set ?ps. q \<noteq> p \<longrightarrow> ?grown q = src_files q)))
       \<or> (mset ?ps \<subset># mset ?ps' \<and> (\<forall>q \<in> set ?ps. ?grown q = src_files q)
         \<and> (\<forall>q. q \<in># mset ?ps' - mset ?ps \<longrightarrow> ?grown q \<noteq> Some (File [])))"
    using more kept new by blast
  show ?thesis
    using hash_dirs_sensitive [OF ps ps fed fed1 change1, of toy_digest]
      hash_dirs_sensitive [OF ps ps' fed fed2 change2, of toy_digest] ps ps' fed fed1 fed2
    by blast
qed

end
